theory Spec2Isabelle
  imports Main "HOL-Library.Multiset"
begin

section \<open>JavaScript values\<close>

text \<open>
  The functions of \<^verbatim>\<open>utils/computed.js\<close> work on plain JavaScript values. A number
  is modelled as an integer or \<open>NaN\<close>: these are the only numbers the code produces
  (time values, day counts). Fractions, infinities and negative zero are outside the
  model. A record is a flat object: a map from property names to primitive values (the
  order of the properties is not modelled).
\<close>

datatype jsnum = Num int | NaN

datatype jsval = JUndefined | JNull | JBool bool | JNum jsnum | JStr string

type_synonym obj = "string \<rightharpoonup> jsval"

text \<open>\<^verbatim>\<open>!v\<close> is \<open>\<not> ToBoolean v\<close>: the falsy values are \<^verbatim>\<open>undefined\<close>, \<^verbatim>\<open>null\<close>,
  \<^verbatim>\<open>false\<close>, \<^verbatim>\<open>0\<close>, \<^verbatim>\<open>NaN\<close> and the empty string.\<close>

fun ToBoolean :: "jsval \<Rightarrow> bool" where
  "ToBoolean JUndefined = False"
| "ToBoolean JNull = False"
| "ToBoolean (JBool b) = b"
| "ToBoolean (JNum NaN) = False"
| "ToBoolean (JNum (Num n)) = (n \<noteq> 0)"
| "ToBoolean (JStr s) = (s \<noteq> [])"

definition digitChar :: "nat \<Rightarrow> char" where
  "digitChar d = ''0123456789'' ! d"

fun showNat :: "nat \<Rightarrow> string" where
  "showNat n = (if n < 10 then [digitChar n] else showNat (n div 10) @ [digitChar (n mod 10)])"

text \<open>\<open>ToString\<close> as a template literal applies it. An integer prints in decimal, as
  JavaScript prints it below \<open>10^21\<close>; from there on JavaScript prints an exponent, which
  is not modelled (no property below is about a number printed as a name).\<close>

fun ToString :: "jsval \<Rightarrow> string" where
  "ToString JUndefined = ''undefined''"
| "ToString JNull = ''null''"
| "ToString (JBool b) = (if b then ''true'' else ''false'')"
| "ToString (JNum NaN) = ''NaN''"
| "ToString (JNum (Num n)) = (if n < 0 then CHR ''-'' # showNat (nat (- n)) else showNat (nat n))"
| "ToString (JStr s) = s"

text \<open>Reading a property: a missing property reads as \<^verbatim>\<open>undefined\<close>.\<close>

definition getProp :: "obj \<Rightarrow> string \<Rightarrow> jsval" where
  "getProp row k = (case row k of None \<Rightarrow> JUndefined | Some v \<Rightarrow> v)"

section \<open>Time values and dates (ECMA-262, Date objects)\<close>

text \<open>
  A time value is a number of milliseconds since 1970-01-01T00:00:00Z, or \<open>NaN\<close>
  (an invalid date). What the code takes from its host is collected in a record: the
  local time zone adjustment \<open>LocalTZA t isUTC\<close> (the offset of local time from UTC in
  milliseconds, at the UTC instant \<open>t\<close> when \<open>isUTC\<close>, at the local time \<open>t\<close>
  otherwise), and what \<^verbatim>\<open>Date.parse\<close> makes of a string that is not a date of the form
  \<^verbatim>\<open>YYYY-MM-DD\<close> (ECMA-262 leaves that to the implementation).
\<close>

record host =
  LocalTZA :: "int \<Rightarrow> bool \<Rightarrow> int"
  parseOther :: "string \<Rightarrow> jsnum"

definition msPerDay :: int where
  "msPerDay = 86400000"

definition Day :: "int \<Rightarrow> int" where
  "Day t = t div msPerDay"

definition MakeTime :: "int \<Rightarrow> int \<Rightarrow> int \<Rightarrow> int \<Rightarrow> int" where
  "MakeTime hour minute sec ms = hour * 3600000 + minute * 60000 + sec * 1000 + ms"

definition MakeDate :: "int \<Rightarrow> int \<Rightarrow> int" where
  "MakeDate day time = day * msPerDay + time"

definition TimeClip :: "int \<Rightarrow> jsnum" where
  "TimeClip t = (if \<bar>t\<bar> > 8640000000000000 then NaN else Num t)"

definition LocalTime :: "host \<Rightarrow> int \<Rightarrow> int" where
  "LocalTime H t = t + LocalTZA H t True"

definition UTC :: "host \<Rightarrow> int \<Rightarrow> int" where
  "UTC H t = t - LocalTZA H t False"

definition InLeapYear :: "int \<Rightarrow> bool" where
  "InLeapYear y =
     (if y mod 4 \<noteq> 0 then False
      else if y mod 100 \<noteq> 0 then True
      else if y mod 400 \<noteq> 0 then False
      else True)"

definition DayFromYear :: "int \<Rightarrow> int" where
  "DayFromYear y =
     365 * (y - 1970) + (y - 1969) div 4 - (y - 1901) div 100 + (y - 1601) div 400"

text \<open>The day within the year on which month \<open>m\<close> (0 is January) starts.\<close>

definition monthStart :: "bool \<Rightarrow> int \<Rightarrow> int" where
  "monthStart leap m =
     [0, 31, 59, 90, 120, 151, 181, 212, 243, 273, 304, 334] ! nat m
       + (if leap \<and> 2 \<le> m then 1 else 0)"

definition MakeDay :: "int \<Rightarrow> int \<Rightarrow> int \<Rightarrow> int" where
  "MakeDay year month date =
     (let ym = year + month div 12; mn = month mod 12
      in DayFromYear ym + monthStart (InLeapYear ym) mn + date - 1)"

text \<open>The number of days of month \<open>m\<close> (1 is January) of year \<open>y\<close>.\<close>

definition DaysInMonth :: "int \<Rightarrow> int \<Rightarrow> int" where
  "DaysInMonth y m =
     (if m = 2 then (if InLeapYear y then 29 else 28)
      else if m = 4 \<or> m = 6 \<or> m = 9 \<or> m = 11 then 30 else 31)"

definition digitVal :: "char \<Rightarrow> int option" where
  "digitVal c = map_of
     [(CHR ''0'', 0), (CHR ''1'', 1), (CHR ''2'', 2), (CHR ''3'', 3), (CHR ''4'', 4),
      (CHR ''5'', 5), (CHR ''6'', 6), (CHR ''7'', 7), (CHR ''8'', 8), (CHR ''9'', 9)] c"

fun digitsVal :: "int \<Rightarrow> string \<Rightarrow> int option" where
  "digitsVal acc [] = Some acc"
| "digitsVal acc (c # cs) =
     (case digitVal c of None \<Rightarrow> None | Some d \<Rightarrow> digitsVal (10 * acc + d) cs)"

text \<open>The date-only form \<^verbatim>\<open>YYYY-MM-DD\<close> of the ECMA-262 date time string format, with a
  month from 01 to 12 and a day that the month has.\<close>

fun isoDateOnly :: "string \<Rightarrow> (int \<times> int \<times> int) option" where
  "isoDateOnly [y1, y2, y3, y4, h1, m1, m2, h2, d1, d2] =
     (if h1 = CHR ''-'' \<and> h2 = CHR ''-'' then
        (case (digitsVal 0 [y1, y2, y3, y4], digitsVal 0 [m1, m2], digitsVal 0 [d1, d2]) of
           (Some y, Some m, Some d) \<Rightarrow>
             if 1 \<le> m \<and> m \<le> 12 \<and> 1 \<le> d \<and> d \<le> DaysInMonth y m then Some (y, m, d) else None
         | _ \<Rightarrow> None)
      else None)"
| "isoDateOnly _ = None"

text \<open>\<^verbatim>\<open>Date.parse\<close>: a date-only string is midnight UTC of that day.\<close>

definition Date_parse :: "host \<Rightarrow> string \<Rightarrow> jsnum" where
  "Date_parse H s =
     (case isoDateOnly s of
        Some (y, m, d) \<Rightarrow> TimeClip (MakeDate (MakeDay y (m - 1) d) 0)
      | None \<Rightarrow> parseOther H s)"

text \<open>\<^verbatim>\<open>new Date(value)\<close>: the time value of the new Date object. A string is parsed,
  any other primitive is converted to a number.\<close>

fun Date_new :: "host \<Rightarrow> jsval \<Rightarrow> jsnum" where
  "Date_new H (JStr s) = Date_parse H s"
| "Date_new H (JNum NaN) = NaN"
| "Date_new H (JNum (Num n)) = TimeClip n"
| "Date_new H (JBool b) = TimeClip (if b then 1 else 0)"
| "Date_new H JNull = TimeClip 0"
| "Date_new H JUndefined = NaN"

text \<open>\<^verbatim>\<open>date.setHours(hour, min, sec, ms)\<close>: the new time value of the Date object. The
  time of day is set in local time, on the local day of the old time value.\<close>

fun setHours :: "host \<Rightarrow> jsnum \<Rightarrow> int \<Rightarrow> int \<Rightarrow> int \<Rightarrow> int \<Rightarrow> jsnum" where
  "setHours H NaN hour minute sec ms = NaN"
| "setHours H (Num t) hour minute sec ms =
     TimeClip (UTC H (MakeDate (Day (LocalTime H t)) (MakeTime hour minute sec ms)))"

text \<open>\<^verbatim>\<open>a - b\<close> on two Date objects subtracts their time values; the difference of two
  time values less than \<open>2^53\<close> apart is exact.\<close>

fun jsMinus :: "jsnum \<Rightarrow> jsnum \<Rightarrow> jsnum" where
  "jsMinus (Num a) (Num b) = Num (a - b)"
| "jsMinus _ _ = NaN"

text \<open>\<^verbatim>\<open>Math.floor(x / d)\<close> for a positive integer \<open>d\<close>. JavaScript rounds the quotient to
  a double before it takes the floor; for \<open>\<bar>x\<bar> < 2^53\<close> that floor is the integer
  quotient rounded down, which is \<open>div\<close> on \<open>int\<close>.\<close>

fun Math_floor_div :: "jsnum \<Rightarrow> int \<Rightarrow> jsnum" where
  "Math_floor_div NaN d = NaN"
| "Math_floor_div (Num x) d = Num (x div d)"

section \<open>utils/computed.js\<close>

text \<open>\<^verbatim>\<open>computeFullName = (firstName, lastName) => `${firstName} ${lastName}`\<close>\<close>

definition computeFullName :: "jsval \<Rightarrow> jsval \<Rightarrow> string" where
  "computeFullName firstName lastName = ToString firstName @ '' '' @ ToString lastName"

text \<open>
  \<^verbatim>\<open>computeDaysSinceRegistration\<close>. The wall clock is the sequence of the times that
  the coming calls of \<^verbatim>\<open>new Date()\<close> return: a call returns \<open>now clk\<close> and leaves the
  clock \<open>tick clk\<close>. The function reads the clock only after its guard, so a falsy
  argument leaves the clock as it is. \<open>frozen t\<close> is a clock that stands still at \<open>t\<close>.
\<close>

type_synonym clock = "nat \<Rightarrow> int"

definition now :: "clock \<Rightarrow> int" where
  "now clk = clk 0"

definition tick :: "clock \<Rightarrow> clock" where
  "tick clk = (\<lambda>k. clk (Suc k))"

definition frozen :: "int \<Rightarrow> clock" where
  "frozen t = (\<lambda>k. t)"

definition computeDaysSinceRegistration :: "host \<Rightarrow> jsval \<Rightarrow> clock \<Rightarrow> jsnum \<times> clock" where
  "computeDaysSinceRegistration H registeredDate clk =
     (if \<not> ToBoolean registeredDate then (Num 0, clk)
      else
        let registered = Date_new H registeredDate;
            today = Num (now clk);
            registered = setHours H registered 0 0 0 0;
            today = setHours H today 0 0 0 0;
            diffTime = jsMinus today registered;
            diffDays = Math_floor_div diffTime (1000 * 60 * 60 * 24)
        in (diffDays, tick clk))"

text \<open>
  Objects and arrays live in a heap: a list of cells, a cell's address being its index.
  An array of records holds the addresses of its rows. Allocation appends a cell, so a
  function that mutates nothing leaves every old address with its old cell.
\<close>

datatype cell = Object obj | Array "nat list"

type_synonym heap = "cell list"

definition lookup :: "heap \<Rightarrow> nat \<Rightarrow> cell option" where
  "lookup h a = (if a < length h then Some (h ! a) else None)"

definition alloc :: "heap \<Rightarrow> cell \<Rightarrow> nat \<times> heap" where
  "alloc h c = (length h, h @ [c])"

text \<open>The callback of \<^verbatim>\<open>rawData.map\<close>:
  \<^verbatim>\<open>row => ({...row, fullName: computeFullName(row.firstName, row.lastName),
                dsr: computeDaysSinceRegistration(row.registeredDate)})\<close>.
  The object literal copies the properties of \<open>row\<close> and then sets the two computed
  ones, which replaces a property of the same name that \<open>row\<close> had.\<close>

definition enrichRow :: "host \<Rightarrow> obj \<Rightarrow> clock \<Rightarrow> obj \<times> clock" where
  "enrichRow H row clk =
     (let fullName = computeFullName (getProp row ''firstName'') (getProp row ''lastName'');
          (dsr, clk') = computeDaysSinceRegistration H (getProp row ''registeredDate'') clk
      in (row(''fullName'' \<mapsto> JStr fullName, ''dsr'' \<mapsto> JNum dsr), clk'))"

text \<open>The loop of \<^verbatim>\<open>Array.prototype.map\<close> with that callback: each row is read from the
  heap, and the object the callback builds is allocated. The result is \<open>None\<close> when an
  element is not the address of a record: such an input is outside the model.\<close>

fun mapRows :: "host \<Rightarrow> nat list \<Rightarrow> heap \<Rightarrow> clock \<Rightarrow> (nat list \<times> heap \<times> clock) option" where
  "mapRows H [] h clk = Some ([], h, clk)"
| "mapRows H (a # as) h clk =
     (case lookup h a of
        Some (Object row) \<Rightarrow>
          (let (row', clk') = enrichRow H row clk;
               (a', h') = alloc h (Object row')
           in case mapRows H as h' clk' of
                None \<Rightarrow> None
              | Some (bs, h'', clk'') \<Rightarrow> Some (a' # bs, h'', clk''))
      | _ \<Rightarrow> None)"

text \<open>\<^verbatim>\<open>enrichDataWithComputedFields = (rawData) => rawData.map(...)\<close>: from the address of
  the input array, the heap and the clock to the address of the new array, the new heap
  and the clock after the call.\<close>

definition enrichDataWithComputedFields ::
    "host \<Rightarrow> nat \<Rightarrow> heap \<Rightarrow> clock \<Rightarrow> (nat \<times> heap \<times> clock) option" where
  "enrichDataWithComputedFields H rawData h clk =
     (case lookup h rawData of
        Some (Array as) \<Rightarrow>
          (case mapRows H as h clk of
             None \<Rightarrow> None
           | Some (bs, h', clk') \<Rightarrow> (let (r, h'') = alloc h' (Array bs) in Some (r, h'', clk')))
      | _ \<Rightarrow> None)"

subsection \<open>Reading a sequence of records off the heap\<close>

text \<open>The records at a list of addresses, and the records of the array at an address:
  \<open>None\<close> unless every address holds what it should.\<close>

fun rowsAt :: "heap \<Rightarrow> nat list \<Rightarrow> obj list option" where
  "rowsAt h [] = Some []"
| "rowsAt h (a # as) =
     (case lookup h a of
        Some (Object row) \<Rightarrow> map_option (Cons row) (rowsAt h as)
      | _ \<Rightarrow> None)"

definition records :: "heap \<Rightarrow> nat \<Rightarrow> obj list option" where
  "records h a = (case lookup h a of Some (Array as) \<Rightarrow> rowsAt h as | _ \<Rightarrow> None)"

text \<open>The callback applied to a sequence of records given as values, the clock passed
  from one call to the next: the records that a call of \<open>enrichDataWithComputedFields\<close>
  on them builds.\<close>

fun enrichedRows :: "host \<Rightarrow> obj list \<Rightarrow> clock \<Rightarrow> obj list \<times> clock" where
  "enrichedRows H [] clk = ([], clk)"
| "enrichedRows H (row # rows) clk =
     (let (row', clk') = enrichRow H row clk;
          (rows', clk'') = enrichedRows H rows clk'
      in (row' # rows', clk''))"

subsection \<open>Hosts used as examples\<close>

text \<open>A host whose local time is UTC plus a constant offset (no daylight saving time),
  and which parses date-only strings only. \<open>hostBogota\<close> is UTC-05:00 all year.\<close>

definition fixedOffsetHost :: "int \<Rightarrow> host" where
  "fixedOffsetHost off = \<lparr>LocalTZA = \<lambda>t isUTC. off, parseOther = \<lambda>s. NaN\<rparr>"

definition hostUTC :: host where
  "hostUTC = fixedOffsetHost 0"

definition hostBogota :: host where
  "hostBogota = fixedOffsetHost (- 5 * 3600000)"

text \<open>Central European time with the rules of 2023: UTC+01:00, and UTC+02:00 from
  2023-03-26T01:00Z to 2023-10-29T01:00Z. A local time that the change skips or repeats
  is read with the offset before the change, as ECMA-262 says.\<close>

definition hostBerlin2023 :: host where
  "hostBerlin2023 =
     \<lparr>LocalTZA = \<lambda>t isUTC.
        if isUTC then (if 1679792400000 \<le> t \<and> t < 1698541200000 then 7200000 else 3600000)
        else (if 1679799600000 \<le> t \<and> t < 1698548400000 then 7200000 else 3600000),
      parseOther = \<lambda>s. NaN\<rparr>"

text \<open>Calendar days are counted from 1970-01-01: the number of the day given as year,
  month (1 is January) and day of the month, and the local calendar day on which a time
  value falls in a host. \<open>utcTime y m d hour minute\<close> is the time value of that time of day
  in UTC on that day.\<close>

definition dayNumber :: "int \<Rightarrow> int \<Rightarrow> int \<Rightarrow> int" where
  "dayNumber y m d = MakeDay y (m - 1) d"

definition localDay :: "host \<Rightarrow> int \<Rightarrow> int" where
  "localDay H t = Day (LocalTime H t)"

definition utcTime :: "int \<Rightarrow> int \<Rightarrow> int \<Rightarrow> int \<Rightarrow> int \<Rightarrow> int" where
  "utcTime y m d hour minute = MakeDate (dayNumber y m d) (MakeTime hour minute 0 0)"

subsection \<open>Records and heaps used as examples\<close>

definition johnDoe :: obj where
  "johnDoe = [''firstName'' \<mapsto> JStr ''John'', ''lastName'' \<mapsto> JStr ''Doe'',
              ''registeredDate'' \<mapsto> JStr ''2023-05-15'']"

text \<open>A record that already carries the two computed properties, with other values.\<close>

definition staleRow :: obj where
  "staleRow = johnDoe(''fullName'' \<mapsto> JStr ''Nobody'', ''dsr'' \<mapsto> JNum (Num 5))"

definition exampleHeap :: heap where
  "exampleHeap = [Object johnDoe, Array [0]]"

definition staleHeap :: heap where
  "staleHeap = [Object staleRow, Array [0]]"

text \<open>The records of the array that a call returned.\<close>

definition resultRecords :: "(nat \<times> heap \<times> clock) option \<Rightarrow> obj list option" where
  "resultRecords res = (case res of None \<Rightarrow> None | Some (r, h', clk') \<Rightarrow> records h' r)"

section \<open>components/DataTable.jsx: the column order\<close>

text \<open>The state \<^verbatim>\<open>columnOrder\<close> starts as the list of the eight column identifiers.\<close>

definition initialColumnOrder :: "jsval list" where
  "initialColumnOrder =
     [JStr ''id'', JStr ''firstName'', JStr ''lastName'', JStr ''fullName'', JStr ''email'',
      JStr ''city'', JStr ''registeredDate'', JStr ''dsr'']"

text \<open>\<^verbatim>\<open>a === b\<close> on primitive values; \<^verbatim>\<open>a !== b\<close> is its negation.\<close>

definition strictEq :: "jsval \<Rightarrow> jsval \<Rightarrow> bool" where
  "strictEq a b = (a = b \<and> a \<noteq> JNum NaN)"

text \<open>\<^verbatim>\<open>array.indexOf(x)\<close>: the first index whose element is strictly equal to \<open>x\<close>, or
  \<open>-1\<close>.\<close>

fun indexOf :: "jsval list \<Rightarrow> jsval \<Rightarrow> int" where
  "indexOf [] x = - 1"
| "indexOf (y # ys) x =
     (if strictEq y x then 0 else (let i = indexOf ys x in if i < 0 then - 1 else i + 1))"

text \<open>The index at which \<^verbatim>\<open>splice(start, ...)\<close> works on an array of length \<open>len\<close>: a
  negative \<open>start\<close> counts from the end, and the index is clamped to \<open>0..len\<close>.\<close>

definition spliceStart :: "int \<Rightarrow> nat \<Rightarrow> nat" where
  "spliceStart start len =
     (if start < 0 then nat (max (int len + start) 0) else nat (min start (int len)))"

text \<open>
  Modelled from the spec: \<^verbatim>\<open>arrayMove\<close> is imported from the package
  \<^verbatim>\<open>@dnd-kit/sortable\<close>, which is not among the sources. It returns a copy of the array
  in which the item at index \<open>from\<close> has moved to index \<open>to\<close>. The model follows the
  package:
  \<^verbatim>\<open>const newArray = array.slice();
  newArray.splice(to < 0 ? newArray.length + to : to, 0, newArray.splice(from, 1)[0]);
  return newArray;\<close>
  The first argument of the outer \<^verbatim>\<open>splice\<close> is computed before the inner one removes
  the item; where the inner one removes nothing, \<^verbatim>\<open>undefined\<close> is inserted.
\<close>

definition arrayMove :: "jsval list \<Rightarrow> int \<Rightarrow> int \<Rightarrow> jsval list" where
  "arrayMove array from to =
     (let start = (if to < 0 then int (length array) + to else to);
          k = spliceStart from (length array);
          removed = take 1 (drop k array);
          newArray = take k array @ drop (k + 1) array;
          item = (case removed of [] \<Rightarrow> JUndefined | x # _ \<Rightarrow> x);
          j = spliceStart start (length newArray)
      in take j newArray @ [item] @ drop j newArray)"

text \<open>A drag-end event: \<open>active\<close> and \<open>over\<close> are \<^verbatim>\<open>null\<close> (\<open>None\<close>) or an object with
  the identifier \<open>id\<close>.\<close>

record dragEndEvent =
  active :: "jsval option"
  over :: "jsval option"

text \<open>\<^verbatim>\<open>handleDragEnd\<close>, as the function from the old column order to the new one: the
  updater that it passes to \<^verbatim>\<open>setColumnOrder\<close>, or the identity when its guard fails.\<close>

definition handleDragEnd :: "dragEndEvent \<Rightarrow> jsval list \<Rightarrow> jsval list" where
  "handleDragEnd event prev =
     (case (active event, over event) of
        (Some activeId, Some overId) \<Rightarrow>
          if \<not> strictEq activeId overId then
            (let oldIndex = indexOf prev activeId;
                 newIndex = indexOf prev overId
             in arrayMove prev oldIndex newIndex)
          else prev
      | _ \<Rightarrow> prev)"

text \<open>The column order after a sequence of drag-end events.\<close>

definition columnOrderAfter :: "dragEndEvent list \<Rightarrow> jsval list" where
  "columnOrderAfter events =
     foldl (\<lambda>order event. handleDragEnd event order) initialColumnOrder events"

section \<open>Properties of the computed fields\<close>

text \<open>The definitions that evaluate a date computation on given numbers.\<close>

lemmas date_eval =
  Date_parse_def digitVal_def DaysInMonth_def InLeapYear_def MakeDate_def MakeDay_def
  DayFromYear_def monthStart_def TimeClip_def UTC_def LocalTime_def Day_def MakeTime_def
  msPerDay_def dayNumber_def localDay_def now_def frozen_def tick_def

text \<open>
  C3: for all strings \<open>firstName\<close> and \<open>lastName\<close>, the empty string included,
  \<open>computeFullName\<close> returns \<open>firstName\<close>, one space, \<open>lastName\<close>, with nothing trimmed,
  normalised or collapsed. The function is total: it has no failing case.
\<close>

theorem computeFullName_concat:
  "computeFullName (JStr firstName) (JStr lastName) = firstName @ '' '' @ lastName"
  by (simp add: computeFullName_def)

text \<open>
  C4: for a falsy \<open>registeredDate\<close> (absent, \<^verbatim>\<open>null\<close>, the empty string, \<^verbatim>\<open>false\<close>,
  \<^verbatim>\<open>0\<close>, \<^verbatim>\<open>NaN\<close>), in every host and at every time, \<open>computeDaysSinceRegistration\<close>
  returns \<open>0\<close>, without reading the clock.
\<close>

theorem computeDaysSinceRegistration_falsy:
  "\<not> ToBoolean registeredDate \<Longrightarrow>
     computeDaysSinceRegistration H registeredDate clk = (Num 0, clk)"
  by (simp add: computeDaysSinceRegistration_def)

theorem computeDaysSinceRegistration_falsy_witness:
  "\<not> ToBoolean (JStr '''') \<and>
   computeDaysSinceRegistration hostBogota (JStr '''') (frozen 0) = (Num 0, frozen 0)"
  using computeDaysSinceRegistration_falsy [of "JStr ''''" hostBogota "frozen 0"]
  by simp

text \<open>
  C1 (the code departs from the claim): in a host west of Greenwich the day count is one
  more than the number of calendar days. In Bogota (UTC-05:00 all year) at noon of
  2023-12-11, which is 210 calendar days after 2023-05-15, the function returns 211 for
  \<^verbatim>\<open>"2023-05-15"\<close>, and the enriched John Doe record carries \<open>dsr = 211\<close>: the string is
  parsed as midnight UTC, which is 19:00 of 2023-05-14 in Bogota, and \<^verbatim>\<open>setHours\<close> then
  moves it to the local midnight of 2023-05-14. (With a constant offset east of
  Greenwich the count is the number of calendar days, see \<open>dsr_east_of_greenwich\<close>
  below.)
\<close>

theorem dsr_bogota_one_more:
  "localDay hostBogota (utcTime 2023 12 11 17 0) = dayNumber 2023 12 11
   \<and> dayNumber 2023 12 11 - dayNumber 2023 5 15 = 210
   \<and> fst (computeDaysSinceRegistration hostBogota (JStr ''2023-05-15'')
            (frozen (utcTime 2023 12 11 17 0))) = Num 211
   \<and> fst (enrichRow hostBogota johnDoe (frozen (utcTime 2023 12 11 17 0))) ''dsr''
       = Some (JNum (Num 211))"
  by (simp add: computeDaysSinceRegistration_def enrichRow_def johnDoe_def getProp_def
      split_beta hostBogota_def fixedOffsetHost_def utcTime_def date_eval)

text \<open>
  C5 (the code departs from the claim): where daylight saving time starts between the
  registration and today, a calendar day passes without the count going up. In central
  Europe, for \<^verbatim>\<open>"2023-03-25"\<close>, the count is 1 at noon of 2023-03-26 and still 1 at noon
  of 2023-03-27: the two local midnights are 47 hours apart, and the quotient is rounded
  down. (With a constant offset the count goes up by one per calendar day, see
  \<open>dsr_fixed_offset_per_day\<close> below.)
\<close>

theorem dsr_berlin_day_not_counted:
  "localDay hostBerlin2023 (utcTime 2023 3 26 10 0) = dayNumber 2023 3 26
   \<and> localDay hostBerlin2023 (utcTime 2023 3 27 10 0) = dayNumber 2023 3 27
   \<and> fst (computeDaysSinceRegistration hostBerlin2023 (JStr ''2023-03-25'')
            (frozen (utcTime 2023 3 26 10 0))) = Num 1
   \<and> fst (computeDaysSinceRegistration hostBerlin2023 (JStr ''2023-03-25'')
            (frozen (utcTime 2023 3 27 10 0))) = Num 1"
  by (simp add: computeDaysSinceRegistration_def hostBerlin2023_def utcTime_def date_eval)

text \<open>
  C7 (the code departs from the claim): a registration date strictly after the current
  calendar day need not give a negative count. In Bogota (UTC-05:00 all year) at noon of
  2023-12-11 the function returns 0 for \<^verbatim>\<open>"2023-12-12"\<close>, the day after: the string is
  parsed as midnight UTC, which is 19:00 of 2023-12-11 in Bogota, and \<^verbatim>\<open>setHours\<close> then
  moves it to the local midnight of 2023-12-11, the local midnight of now. (With a
  constant offset east of Greenwich the count is negative, see
  \<open>dsr_east_future_negative\<close> below.)
\<close>

theorem dsr_bogota_tomorrow_zero:
  "localDay hostBogota (utcTime 2023 12 11 17 0) = dayNumber 2023 12 11
   \<and> isoDateOnly ''2023-12-12'' = Some (2023, 12, 12)
   \<and> dayNumber 2023 12 11 < dayNumber 2023 12 12
   \<and> fst (computeDaysSinceRegistration hostBogota (JStr ''2023-12-12'')
            (frozen (utcTime 2023 12 11 17 0))) = Num 0"
  by (simp add: computeDaysSinceRegistration_def hostBogota_def fixedOffsetHost_def
      utcTime_def date_eval)

text \<open>What holds in every host: the count is negative when the local midnight that
  \<^verbatim>\<open>setHours\<close> gives for the parsed date is later than the one it gives for now.\<close>

lemma dsr_later_midnight_negative:
  assumes "s \<noteq> []"
    and "Date_parse H s = Num r"
    and "setHours H (Num r) 0 0 0 0 = Num registered"
    and "setHours H (Num (now clk)) 0 0 0 0 = Num today"
    and "today < registered"
  shows "\<exists>n. computeDaysSinceRegistration H (JStr s) clk = (Num n, tick clk) \<and> n < 0"
  using assms by (simp add: computeDaysSinceRegistration_def)

subsection \<open>Hosts with a constant offset\<close>

text \<open>A date-only string denotes a day of the years 0 to 9999, whose midnight UTC is a
  time value far inside the range of time values.\<close>

lemma digitVal_range: "digitVal c = Some v \<Longrightarrow> 0 \<le> v \<and> v \<le> 9"
  by (auto simp: digitVal_def split: if_splits)

lemma div_bounds:
  fixes x k :: int
  assumes "0 < k"
  shows "k * (x div k) \<le> x" and "x < k * (x div k) + k"
proof -
  have "k * (x div k) + x mod k = x" by simp
  moreover from assms have "0 \<le> x mod k" "x mod k < k" by simp_all
  ultimately show "k * (x div k) \<le> x" and "x < k * (x div k) + k" by linarith+
qed

lemma DayFromYear_range:
  assumes "0 \<le> y" "y \<le> 9999"
  shows "- 720000 \<le> DayFromYear y" and "DayFromYear y \<le> 2933000"
proof -
  define a where "a = (y - 1969) div 4"
  define b where "b = (y - 1901) div 100"
  define c where "c = (y - 1601) div 400"
  have a: "4 * a \<le> y - 1969" "y - 1969 < 4 * a + 4"
    unfolding a_def by (rule div_bounds, simp)+
  have b: "100 * b \<le> y - 1901" "y - 1901 < 100 * b + 100"
    unfolding b_def by (rule div_bounds, simp)+
  have c: "400 * c \<le> y - 1601" "y - 1601 < 400 * c + 400"
    unfolding c_def by (rule div_bounds, simp)+
  have "DayFromYear y = 365 * (y - 1970) + a - b + c"
    by (simp add: DayFromYear_def a_def b_def c_def)
  note facts = this a b c assms
  show "- 720000 \<le> DayFromYear y" using facts by (simp add: algebra_simps)
  show "DayFromYear y \<le> 2933000" using facts by (simp add: algebra_simps)
qed

lemma monthStart_range:
  assumes "0 \<le> mn" and "mn \<le> 11"
  shows "0 \<le> monthStart leap mn" and "monthStart leap mn \<le> 335"
proof -
  from assms have "mn = 0 \<or> mn = 1 \<or> mn = 2 \<or> mn = 3 \<or> mn = 4 \<or> mn = 5 \<or> mn = 6
      \<or> mn = 7 \<or> mn = 8 \<or> mn = 9 \<or> mn = 10 \<or> mn = 11" by arith
  then show "0 \<le> monthStart leap mn" and "monthStart leap mn \<le> 335"
    by (auto simp: monthStart_def)
qed

lemma dayNumber_range:
  assumes "0 \<le> y" "y \<le> 9999" "1 \<le> m" "m \<le> 12" "1 \<le> d" "d \<le> 31"
  shows "- 720000 \<le> dayNumber y m d" and "dayNumber y m d \<le> 2934000"
proof -
  from assms have mm: "(m - 1) div 12 = 0" "(m - 1) mod 12 = m - 1" by simp_all
  from assms have "0 \<le> m - 1" "m - 1 \<le> 11" by simp_all
  then have ms: "0 \<le> monthStart (InLeapYear y) (m - 1)"
    "monthStart (InLeapYear y) (m - 1) \<le> 335"
    by (rule monthStart_range)+
  have "dayNumber y m d = DayFromYear y + monthStart (InLeapYear y) (m - 1) + d - 1"
    by (simp add: dayNumber_def MakeDay_def mm)
  note facts = this DayFromYear_range [OF assms(1,2)] ms assms
  show "- 720000 \<le> dayNumber y m d" using facts by (simp add: algebra_simps)
  show "dayNumber y m d \<le> 2934000" using facts by (simp add: algebra_simps)
qed


lemma isoDateOnly_range:
  assumes "isoDateOnly s = Some (y, m, d)"
  shows "s \<noteq> []" and "0 \<le> y" and "y \<le> 9999" and "1 \<le> m" and "m \<le> 12"
    and "1 \<le> d" and "d \<le> 31"
proof -
  from assms obtain y1 y2 y3 y4 h1 m1 m2 h2 d1 d2 where
    s: "s = [y1, y2, y3, y4, h1, m1, m2, h2, d1, d2]"
    by (rule isoDateOnly.elims) simp_all
  from assms have y: "digitsVal 0 [y1, y2, y3, y4] = Some y"
    and m: "1 \<le> m" "m \<le> 12" and d: "1 \<le> d" "d \<le> DaysInMonth y m"
    unfolding s isoDateOnly.simps by (auto split: if_splits option.splits)
  have "DaysInMonth y m \<le> 31" by (simp add: DaysInMonth_def)
  with d show "d \<le> 31" by simp
  from y show "0 \<le> y" and "y \<le> 9999"
    by (auto split: option.splits dest!: digitVal_range)
  from s show "s \<noteq> []" by simp
  from m d show "1 \<le> m" and "m \<le> 12" and "1 \<le> d" by simp_all
qed

text \<open>In a host with a constant offset, \<^verbatim>\<open>setHours(0, 0, 0, 0)\<close> gives the local midnight
  of the local day.\<close>

lemma setHours_fixed_offset:
  assumes "\<forall>t u. LocalTZA H t u = off"
    and "\<bar>localDay H t * msPerDay - off\<bar> \<le> 8640000000000000"
  shows "setHours H (Num t) 0 0 0 0 = Num (localDay H t * msPerDay - off)"
  using assms
  by (simp add: UTC_def MakeDate_def MakeTime_def TimeClip_def localDay_def)

lemma localDay_bounds:
  assumes "\<forall>t u. LocalTZA H t u = off"
  shows "t - msPerDay < localDay H t * msPerDay - off" and "localDay H t * msPerDay - off \<le> t"
proof -
  have "0 < msPerDay" by (simp add: msPerDay_def)
  from div_bounds [OF this, of "t + off"] assms
  show "t - msPerDay < localDay H t * msPerDay - off" and "localDay H t * msPerDay - off \<le> t"
    by (simp_all add: localDay_def Day_def LocalTime_def mult.commute)
qed

text \<open>The day count in a host with a constant offset: the number of local calendar
  days from the local day on which midnight UTC of the registration date falls to the
  local day of now.\<close>

lemma dsr_fixed_offset:
  assumes tz: "\<forall>t u. LocalTZA H t u = off"
    and iso: "isoDateOnly s = Some (y, m, d)"
    and range: "\<bar>now clk\<bar> + msPerDay \<le> 8640000000000000"
  shows "fst (computeDaysSinceRegistration H (JStr s) clk)
           = Num (localDay H (now clk) - localDay H (dayNumber y m d * msPerDay))"
proof -
  let ?r = "dayNumber y m d * msPerDay"
  let ?A = "localDay H (now clk)"
  let ?B = "localDay H ?r"
  note r = isoDateOnly_range [OF iso]
  have D: "- 720000 \<le> dayNumber y m d" "dayNumber y m d \<le> 2934000"
    by (rule dayNumber_range [OF r(2-7)])+
  then have rr: "\<bar>?r\<bar> + msPerDay \<le> 8640000000000000"
    by (simp add: msPerDay_def)
  then have "TimeClip ?r = Num ?r"
    by (simp add: TimeClip_def msPerDay_def)
  with iso have parse: "Date_parse H s = Num ?r"
    by (simp add: Date_parse_def MakeDate_def dayNumber_def)
  from localDay_bounds [OF tz, of ?r] rr
  have "\<bar>?B * msPerDay - off\<bar> \<le> 8640000000000000"
    by (simp add: msPerDay_def)
  with tz have reg: "setHours H (Num ?r) 0 0 0 0 = Num (?B * msPerDay - off)"
    by (rule setHours_fixed_offset)
  from localDay_bounds [OF tz, of "now clk"] range
  have "\<bar>?A * msPerDay - off\<bar> \<le> 8640000000000000"
    by (simp add: msPerDay_def)
  with tz have today: "setHours H (Num (now clk)) 0 0 0 0 = Num (?A * msPerDay - off)"
    by (rule setHours_fixed_offset)
  have "?A * msPerDay - off - (?B * msPerDay - off) = (?A - ?B) * 86400000"
    by (simp add: msPerDay_def algebra_simps)
  then have quot: "(?A * msPerDay - off - (?B * msPerDay - off)) div 86400000 = ?A - ?B"
    by simp
  from r(1) have "fst (computeDaysSinceRegistration H (JStr s) clk)
      = Math_floor_div
          (jsMinus (setHours H (Num (now clk)) 0 0 0 0) (setHours H (Date_parse H s) 0 0 0 0))
          86400000"
    by (simp add: computeDaysSinceRegistration_def)
  also have "\<dots> = Num ((?A * msPerDay - off - (?B * msPerDay - off)) div 86400000)"
    by (simp only: parse reg today jsMinus.simps Math_floor_div.simps)
  finally show ?thesis by (simp only: quot)
qed

lemma localDay_east:
  assumes "\<forall>t u. LocalTZA H t u = off" and "0 \<le> off" and "off < msPerDay"
  shows "localDay H (D * msPerDay) = D"
proof -
  from assms have "localDay H (D * msPerDay) = (msPerDay * D + off) div msPerDay"
    by (simp add: localDay_def LocalTime_def Day_def mult.commute)
  also from assms have "\<dots> = D"
    by (intro int_div_pos_eq [of _ _ _ off]) simp_all
  finally show ?thesis .
qed

lemma localDay_west:
  assumes "\<forall>t u. LocalTZA H t u = off" and "- msPerDay \<le> off" and "off < 0"
  shows "localDay H (D * msPerDay) = D - 1"
proof -
  from assms have "localDay H (D * msPerDay) = (msPerDay * D + off) div msPerDay"
    by (simp add: localDay_def LocalTime_def Day_def mult.commute)
  also from assms have "\<dots> = D - 1"
    by (intro int_div_pos_eq [of _ _ _ "off + msPerDay"]) (simp_all add: algebra_simps)
  finally show ?thesis .
qed


text \<open>East of Greenwich (a constant offset from 0 up to 24 hours) the day count is the
  number of calendar days from the registration date to the local day of now.\<close>

lemma dsr_east_of_greenwich:
  assumes "\<forall>t u. LocalTZA H t u = off" and "0 \<le> off" and "off < msPerDay"
    and "isoDateOnly s = Some (y, m, d)"
    and "\<bar>now clk\<bar> + msPerDay \<le> 8640000000000000"
    and "localDay H (now clk) - dayNumber y m d = N"
  shows "fst (computeDaysSinceRegistration H (JStr s) clk) = Num N"
proof -
  have "localDay H (dayNumber y m d * msPerDay) = dayNumber y m d"
    using assms(1-3) by (rule localDay_east)
  with dsr_fixed_offset [OF assms(1,4,5)] assms(6) show ?thesis by simp
qed

text \<open>West of Greenwich (a constant offset below 0, down to 24 hours) it is one more.\<close>

lemma dsr_west_of_greenwich:
  assumes "\<forall>t u. LocalTZA H t u = off" and "- msPerDay \<le> off" and "off < 0"
    and "isoDateOnly s = Some (y, m, d)"
    and "\<bar>now clk\<bar> + msPerDay \<le> 8640000000000000"
    and "localDay H (now clk) - dayNumber y m d = N"
  shows "fst (computeDaysSinceRegistration H (JStr s) clk) = Num (N + 1)"
proof -
  have "localDay H (dayNumber y m d * msPerDay) = dayNumber y m d - 1"
    using assms(1-3) by (rule localDay_west)
  with dsr_fixed_offset [OF assms(1,4,5)] assms(6) show ?thesis by simp
qed

text \<open>East of Greenwich a registration date after the local day of now gives a negative
  count.\<close>

lemma dsr_east_future_negative:
  assumes "\<forall>t u. LocalTZA H t u = off" and "0 \<le> off" and "off < msPerDay"
    and "isoDateOnly s = Some (y, m, d)"
    and "\<bar>now clk\<bar> + msPerDay \<le> 8640000000000000"
    and "localDay H (now clk) < dayNumber y m d"
  shows "\<exists>n. fst (computeDaysSinceRegistration H (JStr s) clk) = Num n \<and> n < 0"
proof -
  have "fst (computeDaysSinceRegistration H (JStr s) clk)
          = Num (localDay H (now clk) - dayNumber y m d)"
    using assms(1-5) by (rule dsr_east_of_greenwich) simp
  with assms(6) show ?thesis by simp
qed

text \<open>With a constant offset the count goes up by one per local calendar day, and it is
  not negative for a registration date that is not after the local day of now.\<close>

lemma dsr_fixed_offset_per_day:
  assumes "\<forall>t u. LocalTZA H t u = off"
    and "isoDateOnly s = Some (y, m, d)"
    and "\<bar>now clk1\<bar> + msPerDay \<le> 8640000000000000"
    and "\<bar>now clk2\<bar> + msPerDay \<le> 8640000000000000"
  shows "\<exists>n1 n2. fst (computeDaysSinceRegistration H (JStr s) clk1) = Num n1
           \<and> fst (computeDaysSinceRegistration H (JStr s) clk2) = Num n2
           \<and> n2 - n1 = localDay H (now clk2) - localDay H (now clk1)"
  using dsr_fixed_offset [OF assms(1,2,3)] dsr_fixed_offset [OF assms(1,2,4)] by simp

lemma dsr_fixed_offset_nonneg:
  assumes "\<forall>t u. LocalTZA H t u = off" and "off < msPerDay"
    and "isoDateOnly s = Some (y, m, d)"
    and "\<bar>now clk\<bar> + msPerDay \<le> 8640000000000000"
    and "dayNumber y m d \<le> localDay H (now clk)"
  shows "\<exists>n. fst (computeDaysSinceRegistration H (JStr s) clk) = Num n \<and> 0 \<le> n"
proof -
  have "0 < msPerDay" by (simp add: msPerDay_def)
  from div_bounds(1) [OF this, of "dayNumber y m d * msPerDay + off"] assms(1,2)
  have "msPerDay * localDay H (dayNumber y m d * msPerDay) < msPerDay * (dayNumber y m d + 1)"
    by (simp add: localDay_def LocalTime_def Day_def algebra_simps)
  then have "localDay H (dayNumber y m d * msPerDay) \<le> dayNumber y m d"
    by (simp add: msPerDay_def)
  with dsr_fixed_offset [OF assms(1,3,4)] assms(5) show ?thesis by simp
qed

section \<open>Properties of the enrichment\<close>

subsection \<open>The heap only grows\<close>

lemma lookup_append: "lookup h a = Some c \<Longrightarrow> lookup (h @ ext) a = Some c"
  by (auto simp: lookup_def nth_append split: if_splits)

lemma lookup_fresh: "lookup (h @ c # ext) (length h) = Some c"
  by (simp add: lookup_def)

lemma rowsAt_append: "rowsAt h as = Some rows \<Longrightarrow> rowsAt (h @ ext) as = Some rows"
proof (induction as arbitrary: rows)
  case Nil
  then show ?case by simp
next
  case (Cons a as)
  from Cons.prems obtain row rest where
    a: "lookup h a = Some (Object row)" and rest: "rowsAt h as = Some rest"
    and rows: "rows = row # rest"
    by (auto split: option.splits cell.splits)
  from a have "lookup (h @ ext) a = Some (Object row)" by (rule lookup_append)
  with Cons.IH [OF rest] rows show ?case by simp
qed


text \<open>On the rows of a well-formed array the loop succeeds, it appends to the heap, and
  the new objects are the rows that \<open>enrichedRows\<close> gives.\<close>

lemma mapRows_rows:
  "rowsAt h as = Some rows \<Longrightarrow>
   \<exists>bs ext. mapRows H as h clk = Some (bs, h @ ext, snd (enrichedRows H rows clk))
     \<and> rowsAt (h @ ext) bs = Some (fst (enrichedRows H rows clk))"
proof (induction as arbitrary: h clk rows)
  case Nil
  then have "mapRows H [] h clk = Some ([], h @ [], snd (enrichedRows H rows clk))
     \<and> rowsAt (h @ []) [] = Some (fst (enrichedRows H rows clk))" by simp
  then show ?case by blast
next
  case (Cons a as)
  from Cons.prems obtain row rest where
    a: "lookup h a = Some (Object row)" and rest: "rowsAt h as = Some rest"
    and rows: "rows = row # rest"
    by (auto split: option.splits cell.splits)
  obtain row' c1 where e: "enrichRow H row clk = (row', c1)" by (cases "enrichRow H row clk")
  let ?h1 = "h @ [Object row']"
  from rest have "rowsAt ?h1 as = Some rest" by (rule rowsAt_append)
  from Cons.IH [OF this, of c1] obtain bs ext where
    m: "mapRows H as ?h1 c1 = Some (bs, ?h1 @ ext, snd (enrichedRows H rest c1))" and
    r: "rowsAt (?h1 @ ext) bs = Some (fst (enrichedRows H rest c1))"
    by blast
  have er: "enrichedRows H rows clk
      = (row' # fst (enrichedRows H rest c1), snd (enrichedRows H rest c1))"
    using e rows by (simp add: split_beta)
  have 1: "mapRows H (a # as) h clk
      = Some (length h # bs, h @ (Object row' # ext), snd (enrichedRows H rows clk))"
    using a e m er by (simp add: alloc_def)
  have 2: "rowsAt (h @ (Object row' # ext)) (length h # bs)
      = Some (fst (enrichedRows H rows clk))"
    using r er by (simp add: lookup_fresh)
  from 1 2 show ?case by blast
qed

lemma enrich_records:
  assumes "records h rawData = Some rows"
  shows "\<exists>r ext. enrichDataWithComputedFields H rawData h clk
            = Some (r, h @ ext, snd (enrichedRows H rows clk))
          \<and> records (h @ ext) r = Some (fst (enrichedRows H rows clk))
          \<and> length h \<le> r"
proof -
  from assms obtain as where
    a: "lookup h rawData = Some (Array as)" and rs: "rowsAt h as = Some rows"
    by (auto simp: records_def split: option.splits cell.splits)
  from mapRows_rows [OF rs, of H clk] obtain bs ext where
    m: "mapRows H as h clk = Some (bs, h @ ext, snd (enrichedRows H rows clk))" and
    r: "rowsAt (h @ ext) bs = Some (fst (enrichedRows H rows clk))"
    by blast
  let ?r = "length (h @ ext)"
  have 1: "enrichDataWithComputedFields H rawData h clk
      = Some (?r, h @ (ext @ [Array bs]), snd (enrichedRows H rows clk))"
    using a m by (simp add: enrichDataWithComputedFields_def alloc_def)
  have "lookup ((h @ ext) @ [Array bs]) ?r = Some (Array bs)"
    by (rule lookup_fresh)
  moreover have "rowsAt ((h @ ext) @ [Array bs]) bs = Some (fst (enrichedRows H rows clk))"
    using r by (rule rowsAt_append)
  ultimately have 2:
    "records (h @ (ext @ [Array bs])) ?r = Some (fst (enrichedRows H rows clk))"
    by (simp add: records_def)
  have 3: "length h \<le> ?r" by simp
  from 1 2 3 show ?thesis by blast
qed

subsection \<open>The callback, row by row\<close>

lemma enrichRow_other:
  "k \<noteq> ''fullName'' \<Longrightarrow> k \<noteq> ''dsr'' \<Longrightarrow> fst (enrichRow H row clk) k = row k"
  by (simp add: enrichRow_def split_beta)

lemma enrichRow_fullName:
  "fst (enrichRow H row clk) ''fullName''
     = Some (JStr (computeFullName (getProp row ''firstName'') (getProp row ''lastName'')))"
  by (simp add: enrichRow_def split_beta)

lemma enrichRow_dsr:
  "fst (enrichRow H row clk) ''dsr''
     = Some (JNum (fst (computeDaysSinceRegistration H (getProp row ''registeredDate'') clk)))"
  by (simp add: enrichRow_def split_beta)

lemma cDSR_clock:
  "snd (computeDaysSinceRegistration H v c) = (if ToBoolean v then tick c else c)"
  by (simp add: computeDaysSinceRegistration_def)

text \<open>The day count looks at the clock only through the local midnight of now.\<close>

lemma cDSR_same_day:
  "setHours H (Num (now c1)) 0 0 0 0 = setHours H (Num (now c2)) 0 0 0 0 \<Longrightarrow>
   fst (computeDaysSinceRegistration H v c1) = fst (computeDaysSinceRegistration H v c2)"
  by (simp add: computeDaysSinceRegistration_def)

lemma enrichRow_clock:
  "snd (enrichRow H row c) = (if ToBoolean (getProp row ''registeredDate'') then tick c else c)"
  by (simp add: enrichRow_def split_beta cDSR_clock)


lemma length_enrichedRows: "length (fst (enrichedRows H rows clk)) = length rows"
  by (induction rows arbitrary: clk) (simp_all add: split_beta)

text \<open>Row \<open>i\<close> is enriched with the clock as the rows before it left it: the clock of the
  call, some readings later.\<close>

lemma enrichedRows_nth:
  "i < length rows \<Longrightarrow>
   \<exists>n. fst (enrichedRows H rows clk) ! i = fst (enrichRow H (rows ! i) (\<lambda>k. clk (k + n)))"
proof (induction rows arbitrary: clk i)
  case Nil
  then show ?case by simp
next
  case (Cons row rows)
  show ?case
  proof (cases i)
    case 0
    have "fst (enrichedRows H (row # rows) clk) ! 0 = fst (enrichRow H row (\<lambda>k. clk (k + 0)))"
      by (simp add: split_beta)
    with 0 show ?thesis by (intro exI [of _ 0]) simp
  next
    case (Suc j)
    with Cons.prems have j: "j < length rows" by simp
    let ?c = "snd (enrichRow H row clk)"
    from Cons.IH [OF j, of ?c] obtain n where
      n: "fst (enrichedRows H rows ?c) ! j = fst (enrichRow H (rows ! j) (\<lambda>k. ?c (k + n)))"
      by blast
    show ?thesis
    proof (cases "ToBoolean (getProp row ''registeredDate'')")
      case True
      then have "(\<lambda>k. ?c (k + n)) = (\<lambda>k. clk (k + Suc n))"
        by (simp add: enrichRow_clock tick_def)
      with n Suc have "fst (enrichedRows H (row # rows) clk) ! i
          = fst (enrichRow H ((row # rows) ! i) (\<lambda>k. clk (k + Suc n)))"
        by (simp add: split_beta)
      then show ?thesis by blast
    next
      case False
      then have "(\<lambda>k. ?c (k + n)) = (\<lambda>k. clk (k + n))"
        by (simp add: enrichRow_clock)
      with n Suc have "fst (enrichedRows H (row # rows) clk) ! i
          = fst (enrichRow H ((row # rows) ! i) (\<lambda>k. clk (k + n)))"
        by (simp add: split_beta)
      then show ?thesis by blast
    qed
  qed
qed



lemma enrichRow_idem:
  assumes "setHours H (Num (now c1)) 0 0 0 0 = setHours H (Num (now c2)) 0 0 0 0"
  shows "fst (enrichRow H (fst (enrichRow H row c1)) c2) = fst (enrichRow H row c1)"
proof -
  let ?row' = "fst (enrichRow H row c1)"
  have "fst (computeDaysSinceRegistration H (getProp row ''registeredDate'') c2)
      = fst (computeDaysSinceRegistration H (getProp row ''registeredDate'') c1)"
    by (rule cDSR_same_day [OF assms, symmetric])
  moreover have "getProp ?row' ''firstName'' = getProp row ''firstName''"
    "getProp ?row' ''lastName'' = getProp row ''lastName''"
    "getProp ?row' ''registeredDate'' = getProp row ''registeredDate''"
    by (simp_all add: getProp_def enrichRow_other)
  ultimately have "fst (enrichRow H ?row' c2)
      = ?row'
          (''fullName'' \<mapsto>
             JStr (computeFullName (getProp row ''firstName'') (getProp row ''lastName'')),
           ''dsr'' \<mapsto>
             JNum (fst (computeDaysSinceRegistration H (getProp row ''registeredDate'') c1)))"
    by (simp add: enrichRow_def [of H ?row'] split_beta)
  also have "\<dots> = ?row'"
    by (rule ext) (simp add: enrichRow_def split_beta)
  finally show ?thesis .
qed

lemma enrichRow_idem_clock:
  "snd (enrichRow H (fst (enrichRow H row c1)) c2)
     = (if ToBoolean (getProp row ''registeredDate'') then tick c2 else c2)"
  by (simp add: enrichRow_clock enrichRow_other getProp_def)

lemma enrichedRows_idem:
  "\<forall>j k. setHours H (Num (c1 j)) 0 0 0 0 = setHours H (Num (c2 k)) 0 0 0 0 \<Longrightarrow>
   fst (enrichedRows H (fst (enrichedRows H rows c1)) c2) = fst (enrichedRows H rows c1)"
proof (induction rows arbitrary: c1 c2)
  case Nil
  then show ?case by simp
next
  case (Cons row rows)
  from Cons.prems have "setHours H (Num (now c1)) 0 0 0 0 = setHours H (Num (now c2)) 0 0 0 0"
    by (simp add: now_def)
  then have hd: "fst (enrichRow H (fst (enrichRow H row c1)) c2) = fst (enrichRow H row c1)"
    by (rule enrichRow_idem)
  have "\<forall>j k. setHours H (Num (snd (enrichRow H row c1) j)) 0 0 0 0
           = setHours H (Num (snd (enrichRow H (fst (enrichRow H row c1)) c2) k)) 0 0 0 0"
    using Cons.prems by (simp add: enrichRow_clock enrichRow_idem_clock tick_def)
  from Cons.IH [OF this] hd show ?case by (simp add: split_beta)
qed

subsection \<open>The claims about the enrichment\<close>

text \<open>The definitions that evaluate a call on a given heap.\<close>

lemmas heap_eval =
  enrichDataWithComputedFields_def mapRows.simps lookup_def alloc_def records_def
  resultRecords_def enrichRow_def computeDaysSinceRegistration_def computeFullName_def
  getProp_def split_beta

text \<open>
  C2: on an array of K records the call succeeds and returns a new array of K records, in
  the same order; record i of the result has every property of record i of the input
  other than \<open>fullName\<close> and \<open>dsr\<close> with its value unchanged, a \<open>fullName\<close> computed from
  the input record, and a \<open>dsr\<close> that is a number. For K = 0 the result is empty.
\<close>

theorem enrich_preserves:
  assumes "records h rawData = Some rows"
  shows "\<exists>r h' clk' out.
           enrichDataWithComputedFields H rawData h clk = Some (r, h', clk')
         \<and> records h' r = Some out
         \<and> length out = length rows
         \<and> (\<forall>i<length rows.
               (\<forall>k. k \<noteq> ''fullName'' \<and> k \<noteq> ''dsr'' \<longrightarrow> (out ! i) k = (rows ! i) k)
             \<and> (out ! i) ''fullName''
                 = Some (JStr (computeFullName (getProp (rows ! i) ''firstName'')
                                               (getProp (rows ! i) ''lastName'')))
             \<and> (\<exists>n. (out ! i) ''dsr'' = Some (JNum n)))"
proof -
  let ?out = "fst (enrichedRows H rows clk)"
  from enrich_records [OF assms, of H clk] obtain r ext where
    1: "enrichDataWithComputedFields H rawData h clk
          = Some (r, h @ ext, snd (enrichedRows H rows clk))"
    and 2: "records (h @ ext) r = Some ?out"
    by blast
  have 3: "length ?out = length rows" by (rule length_enrichedRows)
  have 4: "\<forall>i<length rows.
               (\<forall>k. k \<noteq> ''fullName'' \<and> k \<noteq> ''dsr'' \<longrightarrow> (?out ! i) k = (rows ! i) k)
             \<and> (?out ! i) ''fullName''
                 = Some (JStr (computeFullName (getProp (rows ! i) ''firstName'')
                                               (getProp (rows ! i) ''lastName'')))
             \<and> (\<exists>n. (?out ! i) ''dsr'' = Some (JNum n))"
  proof (intro allI impI)
    fix i assume "i < length rows"
    from enrichedRows_nth [OF this, of H clk] obtain n where
      c: "?out ! i = fst (enrichRow H (rows ! i) (\<lambda>k. clk (k + n)))" by blast
    show "(\<forall>k. k \<noteq> ''fullName'' \<and> k \<noteq> ''dsr'' \<longrightarrow> (?out ! i) k = (rows ! i) k)
             \<and> (?out ! i) ''fullName''
                 = Some (JStr (computeFullName (getProp (rows ! i) ''firstName'')
                                               (getProp (rows ! i) ''lastName'')))
             \<and> (\<exists>n. (?out ! i) ''dsr'' = Some (JNum n))"
      unfolding c by (simp add: enrichRow_other enrichRow_fullName enrichRow_dsr)
  qed
  from 1 2 3 4 show ?thesis by blast
qed

theorem enrich_preserves_witness:
  "records exampleHeap 1 = Some [johnDoe]
   \<and> (\<exists>r h' clk' out.
           enrichDataWithComputedFields hostUTC 1 exampleHeap (frozen 1702296000000)
             = Some (r, h', clk')
         \<and> records h' r = Some out
         \<and> length out = length [johnDoe]
         \<and> (\<forall>i<length [johnDoe].
               (\<forall>k. k \<noteq> ''fullName'' \<and> k \<noteq> ''dsr'' \<longrightarrow> (out ! i) k = ([johnDoe] ! i) k)
             \<and> (out ! i) ''fullName''
                 = Some (JStr (computeFullName (getProp ([johnDoe] ! i) ''firstName'')
                                               (getProp ([johnDoe] ! i) ''lastName'')))
             \<and> (\<exists>n. (out ! i) ''dsr'' = Some (JNum n))))"
proof -
  have r: "records exampleHeap 1 = Some [johnDoe]"
    by (simp add: records_def lookup_def exampleHeap_def)
  from r enrich_preserves [OF r, of hostUTC "frozen 1702296000000"] show ?thesis
    by (rule conjI)
qed

text \<open>The John Doe record, enriched in UTC at noon of 2023-12-11.\<close>

lemma enrich_example_values:
  "map_option (map (\<lambda>row. (row ''fullName'', row ''dsr'', row ''firstName'')))
     (resultRecords (enrichDataWithComputedFields hostUTC 1 exampleHeap (frozen 1702296000000)))
   = Some [(Some (JStr ''John Doe''), Some (JNum (Num 210)), Some (JStr ''John''))]"
  by (simp add: exampleHeap_def johnDoe_def hostUTC_def fixedOffsetHost_def heap_eval date_eval)


lemma enrich_empty:
  "lookup h rawData = Some (Array []) \<Longrightarrow>
   resultRecords (enrichDataWithComputedFields H rawData h clk) = Some []"
  by (simp add: enrichDataWithComputedFields_def alloc_def resultRecords_def records_def
      lookup_def)






text \<open>
  C9: the computed properties are set after the properties of the input record are
  copied, so a \<open>fullName\<close> or \<open>dsr\<close> that the input record carries is replaced by the
  computed value. Hence, while the date does not change (all clock readings of the two
  calls have the same local midnight), enriching the result of an enrichment gives
  records equal to that result.
\<close>

theorem enrich_idempotent:
  assumes "records h rawData = Some rows"
    and "\<forall>j k. setHours H (Num (c1 j)) 0 0 0 0 = setHours H (Num (c2 k)) 0 0 0 0"
  shows "\<exists>r1 h1 c1' out.
           enrichDataWithComputedFields H rawData h c1 = Some (r1, h1, c1')
         \<and> records h1 r1 = Some out
         \<and> (\<forall>i<length rows.
               (out ! i) ''fullName''
                 = Some (JStr (computeFullName (getProp (rows ! i) ''firstName'')
                                               (getProp (rows ! i) ''lastName'')))
             \<and> (out ! i) ''dsr''
                 = Some (JNum (fst (computeDaysSinceRegistration H
                                      (getProp (rows ! i) ''registeredDate'') c1))))
         \<and> resultRecords (enrichDataWithComputedFields H r1 h1 c2) = Some out"
proof -
  let ?out = "fst (enrichedRows H rows c1)"
  from enrich_records [OF assms(1), of H c1] obtain r1 ext where
    1: "enrichDataWithComputedFields H rawData h c1
          = Some (r1, h @ ext, snd (enrichedRows H rows c1))"
    and 2: "records (h @ ext) r1 = Some ?out"
    by blast
  have 3: "\<forall>i<length rows.
               (?out ! i) ''fullName''
                 = Some (JStr (computeFullName (getProp (rows ! i) ''firstName'')
                                               (getProp (rows ! i) ''lastName'')))
             \<and> (?out ! i) ''dsr''
                 = Some (JNum (fst (computeDaysSinceRegistration H
                                      (getProp (rows ! i) ''registeredDate'') c1)))"
  proof (intro allI impI)
    fix i assume "i < length rows"
    from enrichedRows_nth [OF this, of H c1] obtain n where
      c: "?out ! i = fst (enrichRow H (rows ! i) (\<lambda>k. c1 (k + n)))" by blast
    from assms(2) have "setHours H (Num (c1 n)) 0 0 0 0 = setHours H (Num (c2 0)) 0 0 0 0"
      and "setHours H (Num (c1 0)) 0 0 0 0 = setHours H (Num (c2 0)) 0 0 0 0"
      by blast+
    then have "setHours H (Num (now (\<lambda>k. c1 (k + n)))) 0 0 0 0 = setHours H (Num (now c1)) 0 0 0 0"
      by (simp add: now_def)
    then have "fst (computeDaysSinceRegistration H (getProp (rows ! i) ''registeredDate'')
                  (\<lambda>k. c1 (k + n)))
             = fst (computeDaysSinceRegistration H (getProp (rows ! i) ''registeredDate'') c1)"
      by (rule cDSR_same_day)
    then show "(?out ! i) ''fullName''
                 = Some (JStr (computeFullName (getProp (rows ! i) ''firstName'')
                                               (getProp (rows ! i) ''lastName'')))
             \<and> (?out ! i) ''dsr''
                 = Some (JNum (fst (computeDaysSinceRegistration H
                                      (getProp (rows ! i) ''registeredDate'') c1)))"
      unfolding c by (simp add: enrichRow_fullName enrichRow_dsr)
  qed
  from enrich_records [OF 2, of H c2]
  have "resultRecords (enrichDataWithComputedFields H r1 (h @ ext) c2)
          = Some (fst (enrichedRows H ?out c2))"
    by (auto simp: resultRecords_def)
  also from assms(2) have "fst (enrichedRows H ?out c2) = ?out"
    by (rule enrichedRows_idem)
  finally have 4: "resultRecords (enrichDataWithComputedFields H r1 (h @ ext) c2) = Some ?out" .
  from 1 2 3 4 show ?thesis by blast
qed

theorem enrich_idempotent_witness:
  "records staleHeap 1 = Some [staleRow]
   \<and> (\<forall>j k. setHours hostUTC (Num (frozen 1702296000000 j)) 0 0 0 0
          = setHours hostUTC (Num (frozen 1702296000000 k)) 0 0 0 0)
   \<and> (\<exists>r1 h1 c1' out.
           enrichDataWithComputedFields hostUTC 1 staleHeap (frozen 1702296000000)
             = Some (r1, h1, c1')
         \<and> records h1 r1 = Some out
         \<and> (\<forall>i<length [staleRow].
               (out ! i) ''fullName''
                 = Some (JStr (computeFullName (getProp ([staleRow] ! i) ''firstName'')
                                               (getProp ([staleRow] ! i) ''lastName'')))
             \<and> (out ! i) ''dsr''
                 = Some (JNum (fst (computeDaysSinceRegistration hostUTC
                       (getProp ([staleRow] ! i) ''registeredDate'') (frozen 1702296000000)))))
         \<and> resultRecords (enrichDataWithComputedFields hostUTC r1 h1 (frozen 1702296000000))
             = Some out)"
proof -
  have r: "records staleHeap 1 = Some [staleRow]"
    by (simp add: records_def lookup_def staleHeap_def)
  have d: "\<forall>j k. setHours hostUTC (Num (frozen 1702296000000 j)) 0 0 0 0
          = setHours hostUTC (Num (frozen 1702296000000 k)) 0 0 0 0"
    by (simp add: frozen_def)
  from enrich_idempotent [OF r d] r d show ?thesis by blast
qed

text \<open>The computed values replace the ones that the stale record carried.\<close>

lemma enrich_stale_values:
  "map_option (map (\<lambda>row. (row ''fullName'', row ''dsr'')))
     (resultRecords (enrichDataWithComputedFields hostUTC 1 staleHeap (frozen 1702296000000)))
   = Some [(Some (JStr ''John Doe''), Some (JNum (Num 210)))]"
  by (simp add: staleHeap_def staleRow_def johnDoe_def hostUTC_def fixedOffsetHost_def
      heap_eval date_eval)

section \<open>Properties of the column order\<close>

lemma indexOf_range: "- 1 \<le> indexOf xs x \<and> indexOf xs x < int (length xs)"
  by (induction xs) (auto simp: Let_def)

lemma mset_remove_nth:
  "k < length xs \<Longrightarrow> mset (take k xs @ drop (Suc k) xs) + {#xs ! k#} = mset xs"
proof -
  assume "k < length xs"
  then have "xs = take k xs @ xs ! k # drop (Suc k) xs"
    by (simp add: id_take_nth_drop)
  then have "mset xs = mset (take k xs @ xs ! k # drop (Suc k) xs)" by simp
  then show ?thesis by simp
qed

lemma mset_insert_at: "mset (take j ys @ [x] @ drop j ys) = mset ys + {#x#}"
proof -
  have "mset (take j ys) + mset (drop j ys) = mset (take j ys @ drop j ys)"
    by (simp only: mset_append)
  then have "mset (take j ys) + mset (drop j ys) = mset ys"
    by (simp only: append_take_drop_id)
  then show ?thesis by simp
qed

text \<open>An index that \<open>indexOf\<close> can return makes the inner \<^verbatim>\<open>splice\<close> remove an item of a
  non-empty array: \<open>-1\<close> removes the last one.\<close>

lemma spliceStart_in_range:
  "xs \<noteq> [] \<Longrightarrow> - 1 \<le> from \<Longrightarrow> from < int (length xs) \<Longrightarrow>
   spliceStart from (length xs) < length xs"
  by (cases xs) (auto simp: spliceStart_def)

lemma mset_arrayMove:
  assumes "xs \<noteq> []" and "- 1 \<le> from" and "from < int (length xs)"
  shows "mset (arrayMove xs from to) = mset xs"
proof -
  let ?k = "spliceStart from (length xs)"
  have k: "?k < length xs" using assms by (rule spliceStart_in_range)
  then have "take 1 (drop ?k xs) = [xs ! ?k]"
    by (simp add: take_Suc_conv_app_nth Cons_nth_drop_Suc [symmetric])
  then have "mset (arrayMove xs from to) = mset (take ?k xs @ drop (Suc ?k) xs) + {#xs ! ?k#}"
    unfolding arrayMove_def Let_def by (simp only: mset_insert_at list.case Suc_eq_plus1)
  with k show ?thesis by (simp only: mset_remove_nth)
qed

lemma mset_handleDragEnd:
  "prev \<noteq> [] \<Longrightarrow> mset (handleDragEnd event prev) = mset prev"
  using indexOf_range [of prev]
  by (auto simp: handleDragEnd_def Let_def mset_arrayMove split: option.splits)

lemma mset_columnOrderAfter: "mset (columnOrderAfter events) = mset initialColumnOrder"
proof (induction events rule: rev_induct)
  case Nil
  then show ?case by (simp add: columnOrderAfter_def)
next
  case (snoc e es)
  have "columnOrderAfter es \<noteq> []"
  proof
    assume "columnOrderAfter es = []"
    with snoc show False by (simp add: initialColumnOrder_def)
  qed
  then have "mset (handleDragEnd e (columnOrderAfter es)) = mset (columnOrderAfter es)"
    by (rule mset_handleDragEnd)
  with snoc show ?case by (simp add: columnOrderAfter_def)
qed

text \<open>
  C10: after any sequence of drag-end events the column order is a permutation of the
  eight initial identifiers: it has the same entries, each once. A step in which
  \<open>active\<close> or \<open>over\<close> is missing, or in which both carry the same identifier, leaves the
  order as it is; every other step is an \<open>arrayMove\<close>, which permutes the list.
\<close>

theorem columnOrder_permutation:
  "mset (columnOrderAfter events) = mset initialColumnOrder
   \<and> distinct (columnOrderAfter events)
   \<and> length (columnOrderAfter events) = 8
   \<and> handleDragEnd \<lparr>active = None, over = overItem\<rparr> order = order
   \<and> handleDragEnd \<lparr>active = activeItem, over = None\<rparr> order = order
   \<and> handleDragEnd \<lparr>active = Some (JStr i), over = Some (JStr i)\<rparr> order = order"
proof -
  have m: "mset (columnOrderAfter events) = mset initialColumnOrder"
    by (rule mset_columnOrderAfter)
  have "distinct initialColumnOrder" by (simp add: initialColumnOrder_def)
  with mset_eq_imp_distinct_iff [OF m] have d: "distinct (columnOrderAfter events)"
    by blast
  from m have "length (columnOrderAfter events) = length initialColumnOrder"
    by (rule mset_eq_length)
  then have l: "length (columnOrderAfter events) = 8" by (simp add: initialColumnOrder_def)
  have 1: "handleDragEnd \<lparr>active = None, over = overItem\<rparr> order = order"
    by (simp add: handleDragEnd_def)
  have 2: "handleDragEnd \<lparr>active = activeItem, over = None\<rparr> order = order"
    by (simp add: handleDragEnd_def split: option.splits)
  have 3: "handleDragEnd \<lparr>active = Some (JStr i), over = Some (JStr i)\<rparr> order = order"
    by (simp add: handleDragEnd_def strictEq_def)
  from m d l 1 2 3 show ?thesis by simp
qed

end
